theory Spec2Isabelle
  imports Main "HOL-Library.Sublist" "HOL-Library.AList"
begin

section \<open>Python values used by gs-tools.py\<close>

text \<open>
  Exceptions of the Python run time that the modelled code can raise. A function that
  may raise returns \<open>error + 'a\<close>, with \<open>Inl\<close> for the exception.
\<close>

datatype error =
  UnboundLocalError | IndexError | KeyError | ValueError | EOFError | StopIteration

text \<open>
  Strings are \<open>char list\<close>. The model reads them as ASCII text: the character tests
  below (\<open>isspace\<close>, \<open>isdigit\<close>, \<open>lower\<close>) are Python's on the ASCII range, and
  leave every other byte alone.
\<close>

definition char_isspace :: "char \<Rightarrow> bool" where
  "char_isspace c =
     (c \<in> set [CHR 0x09, CHR 0x0A, CHR 0x0B, CHR 0x0C, CHR 0x0D,
                CHR 0x1C, CHR 0x1D, CHR 0x1E, CHR 0x1F, CHR 0x20])"

definition char_isdigit :: "char \<Rightarrow> bool" where
  "char_isdigit c = (c \<in> set ''0123456789'')"

definition char_lower :: "char \<Rightarrow> char" where
  "char_lower c =
     (case map_of (zip ''ABCDEFGHIJKLMNOPQRSTUVWXYZ'' ''abcdefghijklmnopqrstuvwxyz'') c of
        None \<Rightarrow> c
      | Some l \<Rightarrow> l)"

text \<open>\<^verbatim>\<open>s.lower()\<close>\<close>

definition str_lower :: "string \<Rightarrow> string" where
  "str_lower s = map char_lower s"

text \<open>\<^verbatim>\<open>s.strip()\<close>: leading and trailing white space removed.\<close>

definition str_strip :: "string \<Rightarrow> string" where
  "str_strip s = rev (dropWhile char_isspace (rev (dropWhile char_isspace s)))"

text \<open>\<^verbatim>\<open>s.isdigit()\<close>: non-empty and made of decimal digits.\<close>

definition str_isdigit :: "string \<Rightarrow> bool" where
  "str_isdigit s = (s \<noteq> [] \<and> list_all char_isdigit s)"

text \<open>
  \<^verbatim>\<open>s.split(sep)\<close>: the pieces of \<open>s\<close> between the occurrences of \<open>sep\<close>, found
  from the left and not overlapping. \<open>acc\<close> is the piece read so far. Both call sites
  pass a non-empty literal separator (Python raises ValueError on an empty one; here an
  empty separator is never found).
\<close>

function str_split_from :: "string \<Rightarrow> string \<Rightarrow> string \<Rightarrow> string list" where
  "str_split_from sep acc [] = [acc]"
| "str_split_from sep acc (c # cs) =
     (if sep \<noteq> [] \<and> prefix sep (c # cs)
      then acc # str_split_from sep [] (drop (length sep) (c # cs))
      else str_split_from sep (acc @ [c]) cs)"
  by pat_completeness auto
termination
  by (relation "measure (\<lambda>(sep, acc, s). length s)") auto

definition str_split :: "string \<Rightarrow> string \<Rightarrow> string list" where
  "str_split s sep = str_split_from sep [] s"

text \<open>\<^verbatim>\<open>sep.join(xs)\<close>\<close>

fun str_join :: "string \<Rightarrow> string list \<Rightarrow> string" where
  "str_join sep [] = []"
| "str_join sep [x] = x"
| "str_join sep (x # y # ys) = x @ sep @ str_join sep (y # ys)"

text \<open>
  Reading a local variable: a name that is assigned somewhere in a function body is local
  to it, and reading it before its first assignment raises UnboundLocalError. A local is
  modelled as an option, \<open>None\<close> while unassigned.
\<close>

definition read_local :: "'a option \<Rightarrow> error + 'a" where
  "read_local v = (case v of None \<Rightarrow> Inl UnboundLocalError | Some x \<Rightarrow> Inr x)"

text \<open>\<^verbatim>\<open>xs[i]\<close> for a list and a non-negative index.\<close>

definition list_getitem :: "'a list \<Rightarrow> nat \<Rightarrow> error + 'a" where
  "list_getitem xs i = (if i < length xs then Inr (xs ! i) else Inl IndexError)"

section \<open>normalize_name\<close>

text \<open>
  \<^verbatim>\<open>
  def normalize_name(name_str):
      split_name = name_str.split(",")
      if len(split_name) == 1:
          name = split_name[0]
      elif len(name) == 2:
          name = f"{split_name[1].strip()} {split_name[0].strip()}"
      else:
          name = f"{split_name[1].strip()} {split_name[0].strip()}"
      return name
  \<close>
  \<open>name\<close> is a local of the function, unassigned when the \<open>elif\<close> test reads it.
  \<open>split_name\<close> is never empty, and has two elements or more in the last two branches,
  so the list reads are in range.
\<close>

definition normalize_name :: "string \<Rightarrow> error + string" where
  "normalize_name name_str =
     (let split_name = str_split name_str '','';
          name = (None :: string option)
      in if length split_name = 1 then Inr (split_name ! 0)
         else (case read_local name of
                 Inl e \<Rightarrow> Inl e
               | Inr nm \<Rightarrow>
                   if length nm = 2
                   then Inr (str_strip (split_name ! 1) @ '' '' @ str_strip (split_name ! 0))
                   else Inr (str_strip (split_name ! 1) @ '' '' @ str_strip (split_name ! 0))))"

text \<open>\<^verbatim>\<open>str(n)\<close> for an integer, as an f-string prints it.\<close>

fun str_nat :: "nat \<Rightarrow> string" where
  "str_nat n =
     (if n < 10 then [''0123456789'' ! n]
      else str_nat (n div 10) @ [''0123456789'' ! (n mod 10)])"

declare str_nat.simps [simp del]

definition str_int :: "int \<Rightarrow> string" where
  "str_int i = (if i < 0 then ''-'' @ str_nat (nat (- i)) else str_nat (nat i))"

text \<open>\<^verbatim>\<open>int(s)\<close> for a string of decimal digits.\<close>

definition digit_value :: "char \<Rightarrow> nat" where
  "digit_value c = length (takeWhile (\<lambda>d. d \<noteq> c) ''0123456789'')"

definition int_of_digits :: "string \<Rightarrow> nat" where
  "int_of_digits s = foldl (\<lambda>acc c. 10 * acc + digit_value c) 0 s"

text \<open>\<^verbatim>\<open>max(xs)\<close>: ValueError on an empty sequence.\<close>

definition builtin_max :: "nat list \<Rightarrow> error + nat" where
  "builtin_max xs = (case xs of [] \<Rightarrow> Inl ValueError | x # ys \<Rightarrow> Inr (fold max ys x))"

text \<open>
  A dict with string keys is an association list in insertion order, as Python keeps it:
  \<open>d[k] = v\<close> is \<open>AList.update k v d\<close> (the value replaced in place, or the pair
  appended), \<open>list(d.keys())\<close> is \<open>map fst d\<close>.
\<close>

type_synonym roster = "(string \<times> string) list"

definition dict_contains :: "(string \<times> 'v) list \<Rightarrow> string \<Rightarrow> bool" where
  "dict_contains d k = (map_of d k \<noteq> None)"

definition dict_getitem :: "(string \<times> 'v) list \<Rightarrow> string \<Rightarrow> error + 'v" where
  "dict_getitem d k = (case map_of d k of None \<Rightarrow> Inl KeyError | Some v \<Rightarrow> Inr v)"

section \<open>The terminal and the grading platform\<close>

text \<open>
  What the program does to the outside is recorded in a world: the lines \<open>input\<close> has
  still to read, what \<open>print\<close> and the prompts of \<open>input\<close> wrote, and the calls
  \<^verbatim>\<open>assignment.apply_extension(email, days)\<close> made so far, in order. \<open>'a\<close> is the
  type of the platform's assignment objects. A function with effects returns its result
  or exception together with the world it leaves.
\<close>

record 'a world =
  stdin :: "string list"
  stdout :: "string list"
  extensions :: "('a \<times> string \<times> int) list"

definition print :: "string \<Rightarrow> 'a world \<Rightarrow> 'a world" where
  "print s w = w\<lparr>stdout := stdout w @ [s]\<rparr>"

text \<open>\<^verbatim>\<open>input(prompt)\<close>: EOFError when no line is left.\<close>

definition input :: "string \<Rightarrow> 'a world \<Rightarrow> (error + string) \<times> 'a world" where
  "input prompt w =
     (case stdin w of
        [] \<Rightarrow> (Inl EOFError, w\<lparr>stdout := stdout w @ [prompt]\<rparr>)
      | line # rest \<Rightarrow> (Inr line, w\<lparr>stdin := rest, stdout := stdout w @ [prompt]\<rparr>))"

text \<open>
  The platform client is outside the repository: a call of \<open>apply_extension\<close> is
  recorded, and returns.
\<close>

definition apply_extension :: "'a \<Rightarrow> string \<Rightarrow> int \<Rightarrow> 'a world \<Rightarrow> 'a world" where
  "apply_extension assignment email days w =
     w\<lparr>extensions := extensions w @ [(assignment, email, days)]\<rparr>"

section \<open>selection_helper\<close>

text \<open>
  \<^verbatim>\<open>
  def selection_helper(options, msg=...):
      print(msg)
      longest_name_len = max(map(lambda x: len(x), options))
      for ix, opt in enumerate(options):
          print(f"  ({ix+1}) {opt}")
      ix = None
      while ix is None:
          ix = input("Selection: ")
          if ix.isdigit():
              ix = int(ix)-1
              if ix < 0 or ix >= len(options):
                  print(f"{ix+1} not within range. {msg}")
                  ix = None
          else:
              ix = None
      return ix
  \<close>
  The \<open>while\<close> loop reads one line in each round, so it ends when the lines run out
  (EOFError) at the latest. CPython refuses to convert a digit string of more than 4300
  characters (ValueError).
\<close>

function selection_loop :: "string list \<Rightarrow> string \<Rightarrow> 'a world \<Rightarrow> (error + nat) \<times> 'a world" where
  "selection_loop options msg w =
     (case input ''Selection: '' w of
        (Inl e, w1) \<Rightarrow> (Inl e, w1)
      | (Inr line, w1) \<Rightarrow>
          if str_isdigit line then
            if 4300 < length line then (Inl ValueError, w1)
            else
              let ix = int (int_of_digits line) - 1 in
              if ix < 0 \<or> ix \<ge> int (length options)
              then selection_loop options msg
                     (print (str_int (ix + 1) @ '' not within range. '' @ msg) w1)
              else (Inr (nat ix), w1)
          else selection_loop options msg w1)"
  by pat_completeness auto
termination
  by (relation "measure (\<lambda>(options, msg, w). length (stdin w))")
     (auto simp: input_def print_def split: list.splits)

declare selection_loop.simps [simp del]

definition selection_helper :: "string list \<Rightarrow> string \<Rightarrow> 'a world \<Rightarrow> (error + nat) \<times> 'a world" where
  "selection_helper options msg w =
     (let w1 = print msg w in
      case builtin_max (map length options) of
        Inl e \<Rightarrow> (Inl e, w1)
      | Inr longest_name_len \<Rightarrow>
          let w2 = fold (\<lambda>(ix, opt). print (''  ('' @ str_nat (ix + 1) @ '') '' @ opt))
                     (enumerate 0 options) w1
          in selection_loop options msg w2)"

section \<open>main_extend: matching the names and applying the extensions\<close>

text \<open>
  \<^verbatim>\<open>get_close_matches\<close> is difflib's, outside the repository: the model takes it as a
  parameter \<open>gcm\<close>, called with the word, the possibilities and \<open>n\<close>. Where a concrete
  run is evaluated, the library's answer at that call is supplied by \<open>fixed_matcher\<close>.
\<close>

type_synonym matcher = "string \<Rightarrow> string list \<Rightarrow> nat \<Rightarrow> string list"

definition fixed_matcher :: "string list \<Rightarrow> matcher" where
  "fixed_matcher answer = (\<lambda>word possibilities n. answer)"

text \<open>
  \<^verbatim>\<open>
  for assignment in assignments:
      assignment.apply_extension(roster[student_name], args.days)
  \<close>
\<close>

fun apply_extensions ::
  "roster \<Rightarrow> string \<Rightarrow> int \<Rightarrow> 'a list \<Rightarrow> 'a world \<Rightarrow> (error + unit) \<times> 'a world" where
  "apply_extensions roster student_name days [] w = (Inr (), w)"
| "apply_extensions roster student_name days (assignment # rest) w =
     (case dict_getitem roster student_name of
        Inl e \<Rightarrow> (Inl e, w)
      | Inr email \<Rightarrow>
          apply_extensions roster student_name days rest
            (apply_extension assignment email days w))"

text \<open>
  One round of the first loop of \<open>main_extend\<close>, for one name; a \<open>continue\<close> ends the
  round. The result is the list \<open>ambig_names\<close> after the round.
  \<^verbatim>\<open>
  roster_names = list(roster.keys())
  ambig_names = []
  for raw_name in args.names:
      student_name = raw_name.lower()
      if student_name not in roster:
          close_matches = get_close_matches(student_name, roster_names, n=5)
          if len(close_matches) == 1:
              email = roster[close_matches[1]]
          if len(close_matches) == 0:
              print(f"{student_name}: could not find in the roster")
              continue
          else:
              print(f"{student_name}: At least {len(close_matches)} found")
              ambig_names.append((student_name, close_matches))
              continue
      else:
          email = roster[student_name]
      print(f"  {student_name} ({email})")
      for assignment in assignments:
          assignment.apply_extension(roster[student_name], args.days)
  \<close>
\<close>

definition main_extend_match_name ::
  "matcher \<Rightarrow> roster \<Rightarrow> 'a list \<Rightarrow> int \<Rightarrow> string \<Rightarrow> (string \<times> string list) list \<Rightarrow> 'a world
   \<Rightarrow> (error + (string \<times> string list) list) \<times> 'a world" where
  "main_extend_match_name gcm roster assignments days raw_name ambig_names w =
     (let roster_names = map fst roster;
          student_name = str_lower raw_name
      in if \<not> dict_contains roster student_name then
           (let close_matches = gcm student_name roster_names 5 in
            case (if length close_matches = 1
                  then (case list_getitem close_matches 1 of
                          Inl e \<Rightarrow> Inl e
                        | Inr c \<Rightarrow>
                            (case dict_getitem roster c of
                               Inl e \<Rightarrow> Inl e
                             | Inr email \<Rightarrow> Inr (Some email)))
                  else Inr None) of
              Inl e \<Rightarrow> (Inl e, w)
            | Inr email \<Rightarrow>
                if length close_matches = 0
                then (Inr ambig_names,
                      print (student_name @ '': could not find in the roster'') w)
                else (Inr (ambig_names @ [(student_name, close_matches)]),
                      print (student_name @ '': At least ''
                             @ str_nat (length close_matches) @ '' found'') w))
         else
           (case dict_getitem roster student_name of
              Inl e \<Rightarrow> (Inl e, w)
            | Inr email \<Rightarrow>
                (case apply_extensions roster student_name days assignments
                        (print (''  '' @ student_name @ '' ('' @ email @ '')'') w) of
                   (Inl e, w') \<Rightarrow> (Inl e, w')
                 | (Inr u, w') \<Rightarrow> (Inr ambig_names, w'))))"

fun main_extend_match ::
  "matcher \<Rightarrow> roster \<Rightarrow> 'a list \<Rightarrow> int \<Rightarrow> string list \<Rightarrow> (string \<times> string list) list \<Rightarrow> 'a world
   \<Rightarrow> (error + (string \<times> string list) list) \<times> 'a world" where
  "main_extend_match gcm roster assignments days [] ambig_names w = (Inr ambig_names, w)"
| "main_extend_match gcm roster assignments days (raw_name # names) ambig_names w =
     (case main_extend_match_name gcm roster assignments days raw_name ambig_names w of
        (Inl e, w') \<Rightarrow> (Inl e, w')
      | (Inr ambig_names', w') \<Rightarrow>
          main_extend_match gcm roster assignments days names ambig_names' w')"

text \<open>
  The second loop, over the ambiguous names.
  \<^verbatim>\<open>
  for (ambig_name,options) in ambig_names:
      print(f"{ambig_name}: Found the following close matches:")
      ix = selection_helper(options + ["(None)"], msg="Select the number ...")
      if ix == len(options):
          print(f"Skipping {ambig_name}")
      else:
          student_name = options[ix]
          print(f"  {student_name} ({roster[student_name]})")
          for assignment in assignments:
              assignment.apply_extension(roster[student_name], args.days)
  \<close>
\<close>

definition select_msg :: string where
  "select_msg =
     ''Select the number for the correct student (or none if none of these names match)''"

definition main_extend_resolve_name ::
  "roster \<Rightarrow> 'a list \<Rightarrow> int \<Rightarrow> string \<times> string list \<Rightarrow> 'a world \<Rightarrow> (error + unit) \<times> 'a world" where
  "main_extend_resolve_name roster assignments days pending w =
     (case pending of (ambig_name, options) \<Rightarrow>
        (case selection_helper (options @ [''(None)'']) select_msg
                (print (ambig_name @ '': Found the following close matches:'') w) of
           (Inl e, w1) \<Rightarrow> (Inl e, w1)
         | (Inr ix, w1) \<Rightarrow>
             if ix = length options
             then (Inr (), print (''Skipping '' @ ambig_name) w1)
             else (case list_getitem options ix of
                     Inl e \<Rightarrow> (Inl e, w1)
                   | Inr student_name \<Rightarrow>
                       (case dict_getitem roster student_name of
                          Inl e \<Rightarrow> (Inl e, w1)
                        | Inr email \<Rightarrow>
                            apply_extensions roster student_name days assignments
                              (print (''  '' @ student_name @ '' ('' @ email @ '')'') w1)))))"

fun main_extend_resolve ::
  "roster \<Rightarrow> 'a list \<Rightarrow> int \<Rightarrow> (string \<times> string list) list \<Rightarrow> 'a world \<Rightarrow> (error + unit) \<times> 'a world" where
  "main_extend_resolve roster assignments days [] w = (Inr (), w)"
| "main_extend_resolve roster assignments days (pending # rest) w =
     (case main_extend_resolve_name roster assignments days pending w of
        (Inl e, w') \<Rightarrow> (Inl e, w')
      | (Inr u, w') \<Rightarrow> main_extend_resolve roster assignments days rest w')"

text \<open>The two loops of \<open>main_extend\<close>, from the roster, the assignments and the names.\<close>

definition main_extend ::
  "matcher \<Rightarrow> roster \<Rightarrow> 'a list \<Rightarrow> int \<Rightarrow> string list \<Rightarrow> 'a world \<Rightarrow> (error + unit) \<times> 'a world" where
  "main_extend gcm roster assignments days names w =
     (case main_extend_match gcm roster assignments days names [] w of
        (Inl e, w') \<Rightarrow> (Inl e, w')
      | (Inr ambig_names, w') \<Rightarrow> main_extend_resolve roster assignments days ambig_names w')"

text \<open>The extension calls that apply one email to every assignment.\<close>

definition extensions_for :: "'a list \<Rightarrow> int \<Rightarrow> string \<Rightarrow> ('a \<times> string \<times> int) list" where
  "extensions_for assignments days email = map (\<lambda>a. (a, email, days)) assignments"

text \<open>
  A line that selects one of the candidates of a pending name (not the last option,
  "(None)"), and the candidate it selects.
\<close>

definition selects_candidate :: "roster \<Rightarrow> string \<times> string list \<Rightarrow> string \<Rightarrow> bool" where
  "selects_candidate roster pending line =
     (str_isdigit line \<and> length line \<le> 4300
      \<and> 1 \<le> int_of_digits line \<and> int_of_digits line \<le> length (snd pending)
      \<and> dict_contains roster (snd pending ! (int_of_digits line - 1)))"

definition selected_email :: "roster \<Rightarrow> string \<times> string list \<Rightarrow> string \<Rightarrow> string" where
  "selected_email roster pending line =
     the (map_of roster (snd pending ! (int_of_digits line - 1)))"

text \<open>A matcher that answers from a table of words, and finds nothing for any other.\<close>

definition table_matcher :: "(string \<times> string list) list \<Rightarrow> matcher" where
  "table_matcher answers =
     (\<lambda>word possibilities n. case map_of answers word of None \<Rightarrow> [] | Some cs \<Rightarrow> cs)"

subsection \<open>The students that a run resolves\<close>

text \<open>
  The match result of a name, as the specification names the four cases: the lowercased
  name is a key of the roster (with its email), or it has one close match, several, or
  none.
\<close>

datatype match_result = Exact string | UniqueFuzzy string | Ambiguous "string list" | NotFound

definition match_result_of :: "matcher \<Rightarrow> roster \<Rightarrow> string \<Rightarrow> match_result" where
  "match_result_of gcm roster raw_name =
     (let student_name = str_lower raw_name in
      case map_of roster student_name of
        Some email \<Rightarrow> Exact email
      | None \<Rightarrow>
          (case gcm student_name (map fst roster) 5 of
             [] \<Rightarrow> NotFound
           | [c] \<Rightarrow> UniqueFuzzy c
           | c # d # cs \<Rightarrow> Ambiguous (c # d # cs)))"

text \<open>
  The emails of the names that are exact matches, up to the first name with one close
  match, where the first loop stops.
\<close>

fun resolved_exact :: "matcher \<Rightarrow> roster \<Rightarrow> string list \<Rightarrow> string list" where
  "resolved_exact gcm roster [] = []"
| "resolved_exact gcm roster (raw_name # names) =
     (case match_result_of gcm roster raw_name of
        Exact email \<Rightarrow> email # resolved_exact gcm roster names
      | UniqueFuzzy c \<Rightarrow> []
      | Ambiguous cs \<Rightarrow> resolved_exact gcm roster names
      | NotFound \<Rightarrow> resolved_exact gcm roster names)"

text \<open>
  The ambiguous names with their candidates, in order; \<open>None\<close> when a name has one
  close match.
\<close>

fun queued_ambiguous ::
  "matcher \<Rightarrow> roster \<Rightarrow> string list \<Rightarrow> (string \<times> string list) list option" where
  "queued_ambiguous gcm roster [] = Some []"
| "queued_ambiguous gcm roster (raw_name # names) =
     (case match_result_of gcm roster raw_name of
        Exact email \<Rightarrow> queued_ambiguous gcm roster names
      | UniqueFuzzy c \<Rightarrow> None
      | Ambiguous cs \<Rightarrow>
          map_option ((#) (str_lower raw_name, cs)) (queued_ambiguous gcm roster names)
      | NotFound \<Rightarrow> queued_ambiguous gcm roster names)"

text \<open>
  The selection that the lines of input make among \<open>n\<close> options, with the lines left
  after it: the first line that is a number from 1 to \<open>n\<close>, as an index from 0. Any
  other line is passed over (the prompt is repeated); there is no selection when the
  lines run out or a line of digits is too long to convert.
\<close>

fun selection_of :: "nat \<Rightarrow> string list \<Rightarrow> nat option \<times> string list" where
  "selection_of n [] = (None, [])"
| "selection_of n (line # rest) =
     (if str_isdigit line then
        if 4300 < length line then (None, rest)
        else if 1 \<le> int_of_digits line \<and> int_of_digits line \<le> n
             then (Some (int_of_digits line - 1), rest)
             else selection_of n rest
      else selection_of n rest)"

text \<open>
  The emails of the candidates selected for the pending names, name after name: the last
  option, "(None)", selects nobody; the list ends where there is no selection, or where
  the selected candidate is not a key of the roster.
\<close>

fun selected_emails :: "roster \<Rightarrow> (string \<times> string list) list \<Rightarrow> string list \<Rightarrow> string list" where
  "selected_emails roster [] lines = []"
| "selected_emails roster ((ambig_name, options) # pending) lines =
     (case selection_of (length options + 1) lines of
        (None, rest) \<Rightarrow> []
      | (Some ix, rest) \<Rightarrow>
          if ix = length options then selected_emails roster pending rest
          else (case map_of roster (options ! ix) of
                  None \<Rightarrow> []
                | Some email \<Rightarrow> email # selected_emails roster pending rest))"

text \<open>The resolved students of a run: those of the first loop, then those selected.\<close>

definition resolved_emails :: "matcher \<Rightarrow> roster \<Rightarrow> string list \<Rightarrow> string list \<Rightarrow> string list" where
  "resolved_emails gcm roster names lines =
     resolved_exact gcm roster names
     @ (case queued_ambiguous gcm roster names of
          None \<Rightarrow> []
        | Some pending \<Rightarrow> selected_emails roster pending lines)"

section \<open>read_gradescope_roster\<close>

text \<open>
  \<^verbatim>\<open>
  def read_gradescope_roster(csv_path):
      roster = {}
      with open(csv_path) as handle:
          roster_reader = csv.reader(handle)
          header = next(roster_reader)
          # name, SID, email, role
          for entry in roster_reader:
              if entry[3] == "Student":
                  name = normalize_name(entry[0])
                  email = entry[2]
                  roster[name] = email
      return roster
  \<close>
  The argument is the list of rows that \<open>csv.reader\<close> yields for the file, the header
  first.
\<close>

fun read_gradescope_entries :: "string list list \<Rightarrow> roster \<Rightarrow> error + roster" where
  "read_gradescope_entries [] roster = Inr roster"
| "read_gradescope_entries (entry # rest) roster =
     (case list_getitem entry 3 of
        Inl e \<Rightarrow> Inl e
      | Inr role \<Rightarrow>
          if role = ''Student'' then
            (case list_getitem entry 0 of
               Inl e \<Rightarrow> Inl e
             | Inr raw \<Rightarrow>
                 (case normalize_name raw of
                    Inl e \<Rightarrow> Inl e
                  | Inr name \<Rightarrow>
                      (case list_getitem entry 2 of
                         Inl e \<Rightarrow> Inl e
                       | Inr email \<Rightarrow>
                           read_gradescope_entries rest (AList.update name email roster))))
          else read_gradescope_entries rest roster)"

definition read_gradescope_roster :: "string list list \<Rightarrow> error + roster" where
  "read_gradescope_roster rows =
     (case rows of
        [] \<Rightarrow> Inl StopIteration
      | header # entries \<Rightarrow> read_gradescope_entries entries [])"

section \<open>interactive_setup: the roster from the forum's members\<close>

text \<open>
  \<^verbatim>\<open>
  students = filter(lambda x: x["role"] == "student", pz_course.get_all_users())
  valid_emails = set(gs_student.email for gs_student in gs_course.get_roster())
  roster = {}
  sans_emails = []
  for student in students:
      name = student["name"].lower()
      emails = student["email"].split(", ")
      valid_email = None
      for email in emails:
          if email in valid_emails:
              valid_email = email
              break
      if valid_email is None:
          sans_emails.append(name)
      else:
          roster[name] = email
  if sans_emails:
      print(f"Warning: could not find an email ...\n  {'\n  '.join(sans_emails)}")
  \<close>
  A forum user is a record of the three fields the code reads. \<open>email\<close>, the variable of
  the inner loop, is a local of \<open>interactive_setup\<close>: it keeps its value from one student
  to the next, and it is the variable stored in the roster.
\<close>

record user =
  user_role :: string
  user_name :: string
  user_email :: string

text \<open>The inner loop, on the pair of the locals \<open>valid_email\<close> and \<open>email\<close>.\<close>

fun find_valid_email ::
  "string list \<Rightarrow> string set \<Rightarrow> string option \<times> string option
   \<Rightarrow> string option \<times> string option" where
  "find_valid_email [] valid_emails (valid_email, email) = (valid_email, email)"
| "find_valid_email (e # es) valid_emails (valid_email, email) =
     (if e \<in> valid_emails then (Some e, Some e)
      else find_valid_email es valid_emails (valid_email, Some e))"

text \<open>The outer loop, on \<open>roster\<close>, \<open>sans_emails\<close> and \<open>email\<close>.\<close>

fun membership_loop ::
  "user list \<Rightarrow> string set \<Rightarrow> roster \<times> string list \<times> string option
   \<Rightarrow> error + (roster \<times> string list \<times> string option)" where
  "membership_loop [] valid_emails st = Inr st"
| "membership_loop (student # rest) valid_emails (roster, sans_emails, email) =
     (let name = str_lower (user_name student);
          emails = str_split (user_email student) '', ''
      in case find_valid_email emails valid_emails (None, email) of
           (valid_email, email') \<Rightarrow>
             if valid_email = None
             then membership_loop rest valid_emails (roster, sans_emails @ [name], email')
             else (case read_local email' of
                     Inl e \<Rightarrow> Inl e
                   | Inr em \<Rightarrow>
                       membership_loop rest valid_emails
                         (AList.update name em roster, sans_emails, email')))"

definition sans_emails_warning :: "string list \<Rightarrow> string" where
  "sans_emails_warning sans_emails =
     ''Warning: could not find an email for the following students. ''
     @ ''Check to make sure they aren't enrolled on gradescope'' @ [CHR 0x0A] @ ''  ''
     @ str_join ([CHR 0x0A] @ ''  '') sans_emails"

definition interactive_setup_membership ::
  "user list \<Rightarrow> string set \<Rightarrow> 'a world \<Rightarrow> (error + roster) \<times> 'a world" where
  "interactive_setup_membership all_users valid_emails w =
     (let students = filter (\<lambda>x. user_role x = ''student'') all_users in
      case membership_loop students valid_emails ([], [], None) of
        Inl e \<Rightarrow> (Inl e, w)
      | Inr (roster, sans_emails, email) \<Rightarrow>
          (Inr roster,
           if sans_emails \<noteq> [] then print (sans_emails_warning sans_emails) w else w))"

text \<open>
  The roster builder as the specification words it, to compare with the code: for each
  forum student, a name with its list of candidate emails, the first candidate that is
  in the set of valid emails is bound under the lowercased name; a student with no such
  candidate is recorded as unmatched.
\<close>

fun buildFromForumMembership ::
  "(string \<times> string list) list \<Rightarrow> string set \<Rightarrow> roster \<times> string list
   \<Rightarrow> roster \<times> string list" where
  "buildFromForumMembership [] valid_emails acc = acc"
| "buildFromForumMembership ((name, candidates) # rest) valid_emails (roster, unmatched) =
     (case List.find (\<lambda>e. e \<in> valid_emails) candidates of
        None \<Rightarrow>
          buildFromForumMembership rest valid_emails (roster, unmatched @ [str_lower name])
      | Some e \<Rightarrow>
          buildFromForumMembership rest valid_emails
            (AList.update (str_lower name) e roster, unmatched))"

definition forum_students :: "user list \<Rightarrow> (string \<times> string list) list" where
  "forum_students all_users =
     map (\<lambda>x. (user_name x, str_split (user_email x) '', ''))
       (filter (\<lambda>x. user_role x = ''student'') all_users)"

section \<open>Properties of the string helpers\<close>

lemma str_split_from_no_sep:
  "c \<notin> set s \<Longrightarrow> str_split_from [c] acc s = [acc @ s]"
  by (induction s arbitrary: acc) auto

lemma str_split_from_nonempty: "str_split_from sep acc s \<noteq> []"
  by (induction sep acc s rule: str_split_from.induct) auto

lemma str_split_from_length_sep:
  "c \<in> set s \<Longrightarrow> 2 \<le> length (str_split_from [c] acc s)"
proof (induction s arbitrary: acc)
  case Nil
  then show ?case by simp
next
  case (Cons a s)
  show ?case
  proof (cases "a = c")
    case True
    have "str_split_from [c] [] s \<noteq> []"
      by (rule str_split_from_nonempty)
    then have "1 \<le> length (str_split_from [c] [] s)"
      by (cases "str_split_from [c] [] s") auto
    with True show ?thesis by simp
  next
    case False
    with Cons show ?thesis by simp
  qed
qed

section \<open>Properties of normalize_name\<close>

text \<open>
  C2: the claim is that \<open>normalize_name\<close> maps "Doe, Jane" to "Jane Doe" and leaves
  "Jane Doe" as it is. The code returns "Jane Doe" unchanged, but on "Doe, Jane" it raises
  UnboundLocalError: the \<open>elif\<close> test reads \<open>name\<close>, not \<open>split_name\<close>.
\<close>

theorem normalize_name_last_first_raises:
  "normalize_name ''Doe, Jane'' = Inl UnboundLocalError
   \<and> normalize_name ''Jane Doe'' = Inr ''Jane Doe''"
  by (simp add: normalize_name_def str_split_def read_local_def)

text \<open>
  C3: the claim is that \<open>normalize_name\<close> is total. The code returns its input when the
  input has no comma, and raises UnboundLocalError on every input that has one.
\<close>

theorem normalize_name_total_iff_no_comma:
  "normalize_name s = (if CHR '','' \<in> set s then Inl UnboundLocalError else Inr s)"
proof (cases "CHR '','' \<in> set s")
  case True
  from str_split_from_length_sep [OF True, of "[]"]
  have "length (str_split s '','') \<noteq> 1"
    by (simp add: str_split_def)
  with True show ?thesis
    by (simp add: normalize_name_def read_local_def)
next
  case False
  from str_split_from_no_sep [OF False, of "[]"]
  have "str_split s '','' = [s]"
    by (simp add: str_split_def)
  with False show ?thesis
    by (simp add: normalize_name_def)
qed

section \<open>Properties of read_gradescope_roster\<close>

text \<open>
  C5: the claim is that the export with the data rows ("Doe, Jane", "S1", "jane@x.edu",
  "Student") and ("Smith, Bob", "S2", "bob@x.edu", "TA") gives the roster
  {"Jane Doe": "jane@x.edu"}. The code raises UnboundLocalError on the first data row:
  the row is a student's, and \<open>normalize_name\<close> fails on the comma of its name.
\<close>

theorem read_gradescope_roster_example_raises:
  "read_gradescope_roster
     [[''Name'', ''SID'', ''Email'', ''Role''],
      [''Doe, Jane'', ''S1'', ''jane@x.edu'', ''Student''],
      [''Smith, Bob'', ''S2'', ''bob@x.edu'', ''TA'']]
   = Inl UnboundLocalError"
  by (simp add: read_gradescope_roster_def list_getitem_def normalize_name_def
        str_split_def read_local_def)

section \<open>Properties of selection_helper\<close>

text \<open>
  C9: with an empty list of options \<open>selection_helper\<close> raises ValueError, for every
  message: the maximum is taken over the empty sequence after the message is printed and
  before any line is read, so the lines to read are left as they were.
\<close>

theorem selection_helper_empty_raises:
  "selection_helper [] msg w = (Inl ValueError, print msg w)
   \<and> stdin (snd (selection_helper [] msg w)) = stdin w"
  by (simp add: selection_helper_def builtin_max_def print_def)

lemma fold_print_stdin:
  "stdin (fold (\<lambda>(ix, opt). print (f ix opt)) xs w) = stdin w"
  by (induction xs arbitrary: w) (auto simp: print_def)

lemma fold_print_extensions:
  "extensions (fold (\<lambda>(ix, opt). print (f ix opt)) xs w) = extensions w"
  by (induction xs arbitrary: w) (auto simp: print_def)

lemma selection_loop_valid:
  assumes "stdin w = line # rest" "str_isdigit line" "length line \<le> 4300"
    "1 \<le> int_of_digits line" "int_of_digits line \<le> length options"
  shows "selection_loop options msg w
     = (Inr (int_of_digits line - 1), w\<lparr>stdin := rest, stdout := stdout w @ [''Selection: '']\<rparr>)"
  using assms by (subst selection_loop.simps) (auto simp: input_def)

lemma selection_helper_valid:
  assumes "stdin w = line # rest" "str_isdigit line" "length line \<le> 4300"
    "1 \<le> int_of_digits line" "int_of_digits line \<le> length options"
  shows "\<exists>w'. selection_helper options msg w = (Inr (int_of_digits line - 1), w')
            \<and> stdin w' = rest \<and> extensions w' = extensions w"
proof -
  from assms obtain x ys where o: "options = x # ys" by (cases options) auto
  let ?w2 = "fold (\<lambda>(ix, opt). print (''  ('' @ str_nat (ix + 1) @ '') '' @ opt))
                     (enumerate 0 options) (print msg w)"
  have s: "stdin ?w2 = line # rest"
    using assms(1) by (simp add: fold_print_stdin print_def)
  have e: "extensions ?w2 = extensions w"
    by (simp add: fold_print_extensions print_def)
  from selection_loop_valid [OF s assms(2-5), of msg]
  have "selection_loop options msg ?w2
     = (Inr (int_of_digits line - 1), ?w2\<lparr>stdin := rest, stdout := stdout ?w2 @ [''Selection: '']\<rparr>)" .
  moreover have "selection_helper options msg w = selection_loop options msg ?w2"
    by (simp add: selection_helper_def builtin_max_def o)
  ultimately show ?thesis using e by simp
qed

section \<open>Properties of the matching loop\<close>

lemma apply_extensions_ok:
  "dict_getitem roster s = Inr e \<Longrightarrow>
   apply_extensions roster s days assignments w
     = (Inr (), w\<lparr>extensions := extensions w @ extensions_for assignments days e\<rparr>)"
  by (induction assignments arbitrary: w) (simp_all add: extensions_for_def apply_extension_def)

lemma dict_getitem_the:
  "dict_contains roster k \<Longrightarrow> dict_getitem roster k = Inr (the (map_of roster k))"
  by (auto simp: dict_contains_def dict_getitem_def)

lemma match_name_in_roster:
  "dict_contains roster (str_lower q) \<Longrightarrow>
   main_extend_match_name gcm roster assignments days q ambig_names w
     = (Inr ambig_names,
        (print (''  '' @ str_lower q @ '' ('' @ the (map_of roster (str_lower q)) @ '')'') w)
          \<lparr>extensions := extensions w
             @ extensions_for assignments days (the (map_of roster (str_lower q)))\<rparr>)"
  by (simp add: main_extend_match_name_def dict_getitem_the apply_extensions_ok print_def Let_def)

lemma match_name_not_in_roster:
  "\<not> dict_contains roster (str_lower q) \<Longrightarrow>
   length (gcm (str_lower q) (map fst roster) 5) \<noteq> 1 \<Longrightarrow>
   \<exists>ambig' w'. main_extend_match_name gcm roster assignments days q ambig_names w = (Inr ambig', w')
      \<and> stdin w' = stdin w \<and> extensions w' = extensions w"
  by (simp add: main_extend_match_name_def print_def Let_def)

lemma match_name_no_extension:
  "\<not> dict_contains roster (str_lower q) \<Longrightarrow>
   extensions (snd (main_extend_match_name gcm roster assignments days q ambig_names w))
     = extensions w"
  by (simp add: main_extend_match_name_def print_def Let_def list_getitem_def)

text \<open>
  The end-to-end run of the specification: one name of the roster and one that matches
  nothing, over two assignments.
\<close>

lemma main_extend_end_to_end:
  "main_extend (fixed_matcher []) [(''jane doe'', ''jane@x.edu'')] [''hw1a'', ''hw1b''] 5
     [''jane doe'', ''nonexistent person'']
     \<lparr>stdin = [], stdout = [], extensions = []\<rparr>
   = (Inr (),
      \<lparr>stdin = [],
       stdout = [''  jane doe (jane@x.edu)'',
                 ''nonexistent person: could not find in the roster''],
       extensions = [(''hw1a'', ''jane@x.edu'', 5), (''hw1b'', ''jane@x.edu'', 5)]\<rparr>)"
  by (simp add: main_extend_def main_extend_match_name_def fixed_matcher_def
        dict_contains_def dict_getitem_def str_lower_def char_lower_def
        print_def apply_extension_def)

text \<open>
  C1: the claim is that a name that is not a key of the roster and has exactly one close
  match is resolved to that match's roster entry. The code raises IndexError there,
  whatever the roster and the match: it reads \<open>close_matches[1]\<close> in a list of one
  element. Nothing is printed and no extension is applied.
\<close>

theorem single_close_match_raises:
  "\<not> dict_contains roster (str_lower q) \<Longrightarrow> gcm (str_lower q) (map fst roster) 5 = [c]
   \<Longrightarrow> main_extend_match_name gcm roster assignments days q ambig_names w = (Inl IndexError, w)
       \<and> main_extend_match gcm roster assignments days (q # names) ambig_names w
           = (Inl IndexError, w)"
  by (simp add: main_extend_match_name_def list_getitem_def)

theorem single_close_match_raises_witness:
  "main_extend_match_name (fixed_matcher [''jane doe'']) [(''jane doe'', ''jane@x.edu'')]
     [''hw1''] 5 ''jane do'' [] \<lparr>stdin = [], stdout = [], extensions = []\<rparr>
     = (Inl IndexError, \<lparr>stdin = [], stdout = [], extensions = []\<rparr>)
   \<and> main_extend_match (fixed_matcher [''jane doe'']) [(''jane doe'', ''jane@x.edu'')]
     [''hw1''] 5 [''jane do''] [] \<lparr>stdin = [], stdout = [], extensions = []\<rparr>
     = (Inl IndexError, \<lparr>stdin = [], stdout = [], extensions = []\<rparr>)"
proof -
  have h1: "\<not> dict_contains [(''jane doe'', ''jane@x.edu'')] (str_lower ''jane do'')"
    by (simp add: dict_contains_def str_lower_def char_lower_def)
  have h2: "fixed_matcher [''jane doe''] (str_lower ''jane do'')
              (map fst [(''jane doe'', ''jane@x.edu'')]) 5 = [''jane doe'']"
    by (simp add: fixed_matcher_def)
  from single_close_match_raises [where roster = "[(''jane doe'', ''jane@x.edu'')]"
      and q = "''jane do''" and gcm = "fixed_matcher [''jane doe'']" and c = "''jane doe''"
      and assignments = "[''hw1'']" and days = 5 and ambig_names = "[]" and names = "[]"
      and w = "\<lparr>stdin = [], stdout = [], extensions = []\<rparr>", OF h1 h2]
  show ?thesis by simp
qed

text \<open>
  C4: the claim is that every key of every roster is matched exactly by itself and by any
  query that differs from it in letter case only. The code lowercases the query and not
  the keys: with the roster {"Jane Doe": "jane@x.edu"} the query "Jane Doe" is looked up
  as "jane doe", which is not a key, so no extension is applied, whatever the close
  matches are. The one close match is "Jane Doe" (difflib's ratio of the two strings is
  0.75, above its cutoff 0.6), and with it the run ends in IndexError.
\<close>

theorem exact_match_case_counterexample:
  "(\<forall>gcm. extensions (snd (main_extend_match_name gcm [(''Jane Doe'', ''jane@x.edu'')]
              [''hw1''] 5 ''Jane Doe'' [] \<lparr>stdin = [], stdout = [], extensions = []\<rparr>)) = [])
   \<and> main_extend_match_name (fixed_matcher [''Jane Doe'']) [(''Jane Doe'', ''jane@x.edu'')]
       [''hw1''] 5 ''Jane Doe'' [] \<lparr>stdin = [], stdout = [], extensions = []\<rparr>
     = (Inl IndexError, \<lparr>stdin = [], stdout = [], extensions = []\<rparr>)"
proof -
  have h: "\<not> dict_contains [(''Jane Doe'', ''jane@x.edu'')] (str_lower ''Jane Doe'')"
    by (simp add: dict_contains_def str_lower_def char_lower_def)
  have "extensions (snd (main_extend_match_name gcm [(''Jane Doe'', ''jane@x.edu'')]
              [''hw1''] 5 ''Jane Doe'' [] \<lparr>stdin = [], stdout = [], extensions = []\<rparr>)) = []"
    for gcm
    using match_name_no_extension [where roster = "[(''Jane Doe'', ''jane@x.edu'')]"
        and q = "''Jane Doe''" and gcm = gcm and assignments = "[''hw1'']" and days = 5
        and ambig_names = "[]" and w = "\<lparr>stdin = [], stdout = [], extensions = []\<rparr>", OF h]
    by simp
  moreover have "main_extend_match_name (fixed_matcher [''Jane Doe''])
       [(''Jane Doe'', ''jane@x.edu'')]
       [''hw1''] 5 ''Jane Doe'' [] \<lparr>stdin = [], stdout = [], extensions = []\<rparr>
     = (Inl IndexError, \<lparr>stdin = [], stdout = [], extensions = []\<rparr>)"
    using h by (simp add: main_extend_match_name_def fixed_matcher_def list_getitem_def)
  ultimately show ?thesis by blast
qed

text \<open>
  C4, amended: for every roster and every key \<open>k\<close> of it that is its own lowercased
  form, a query whose lowercased form is \<open>k\<close> is matched exactly: the name is printed
  with the email of \<open>k\<close>, that email is applied to every assignment, and nothing is
  queued as ambiguous.
\<close>

theorem exact_match_lowercase_key:
  "map_of roster k = Some e \<Longrightarrow> str_lower k = k \<Longrightarrow> str_lower q = k \<Longrightarrow>
   main_extend_match_name gcm roster assignments days q ambig_names w
     = (Inr ambig_names,
        (print (''  '' @ k @ '' ('' @ e @ '')'') w)
          \<lparr>extensions := extensions w @ extensions_for assignments days e\<rparr>)"
proof -
  assume a: "map_of roster k = Some e" "str_lower q = k"
  then have "dict_contains roster (str_lower q)" by (simp add: dict_contains_def)
  from match_name_in_roster [OF this] a show ?thesis by simp
qed

theorem exact_match_lowercase_key_witness:
  "main_extend_match_name (fixed_matcher []) [(''jane doe'', ''jane@x.edu'')]
     [''hw1a'', ''hw1b''] 5 ''Jane DOE'' [] \<lparr>stdin = [], stdout = [], extensions = []\<rparr>
   = (Inr [],
      \<lparr>stdin = [], stdout = [''  jane doe (jane@x.edu)''],
       extensions = [(''hw1a'', ''jane@x.edu'', 5), (''hw1b'', ''jane@x.edu'', 5)]\<rparr>)"
proof -
  have h1: "map_of [(''jane doe'', ''jane@x.edu'')] ''jane doe'' = Some ''jane@x.edu''"
    by simp
  have h2: "str_lower ''jane doe'' = ''jane doe''"
    by (simp add: str_lower_def char_lower_def)
  have h3: "str_lower ''Jane DOE'' = ''jane doe''"
    by (simp add: str_lower_def char_lower_def)
  from exact_match_lowercase_key [where roster = "[(''jane doe'', ''jane@x.edu'')]"
      and k = "''jane doe''" and e = "''jane@x.edu''" and q = "''Jane DOE''"
      and gcm = "fixed_matcher []" and assignments = "[''hw1a'', ''hw1b'']" and days = 5
      and ambig_names = "[]" and w = "\<lparr>stdin = [], stdout = [], extensions = []\<rparr>", OF h1 h2 h3]
  show ?thesis
    by (simp add: print_def extensions_for_def)
qed

text \<open>
  C7: a name that is not a key of the roster and has no close match is reported as not
  found, no extension is applied for it and nothing is queued, and the loop goes on with
  the names that are left.
\<close>

theorem not_found_reported_and_skipped:
  "\<not> dict_contains roster (str_lower q) \<Longrightarrow> gcm (str_lower q) (map fst roster) 5 = []
   \<Longrightarrow> main_extend_match_name gcm roster assignments days q ambig_names w
       = (Inr ambig_names, print (str_lower q @ '': could not find in the roster'') w)
     \<and> extensions (print (str_lower q @ '': could not find in the roster'') w) = extensions w
     \<and> main_extend_match gcm roster assignments days (q # names) ambig_names w
       = main_extend_match gcm roster assignments days names ambig_names
           (print (str_lower q @ '': could not find in the roster'') w)"
  by (simp add: main_extend_match_name_def print_def)

theorem not_found_reported_and_skipped_witness:
  "main_extend_match_name (fixed_matcher []) [(''jane doe'', ''jane@x.edu'')] [''hw1'']
       5 ''Nonexistent Person'' [] \<lparr>stdin = [], stdout = [], extensions = []\<rparr>
     = (Inr [],
        \<lparr>stdin = [], stdout = [''nonexistent person: could not find in the roster''],
         extensions = []\<rparr>)
   \<and> main_extend_match (fixed_matcher []) [(''jane doe'', ''jane@x.edu'')] [''hw1'']
       5 [''Nonexistent Person'', ''jane doe''] [] \<lparr>stdin = [], stdout = [], extensions = []\<rparr>
     = main_extend_match (fixed_matcher []) [(''jane doe'', ''jane@x.edu'')] [''hw1'']
       5 [''jane doe''] []
       \<lparr>stdin = [], stdout = [''nonexistent person: could not find in the roster''],
        extensions = []\<rparr>"
proof -
  have l: "str_lower ''Nonexistent Person'' = ''nonexistent person''"
    by (simp add: str_lower_def char_lower_def)
  have h1: "\<not> dict_contains [(''jane doe'', ''jane@x.edu'')] (str_lower ''Nonexistent Person'')"
    by (simp add: dict_contains_def l)
  have h2: "fixed_matcher [] (str_lower ''Nonexistent Person'')
              (map fst [(''jane doe'', ''jane@x.edu'')]) 5 = []"
    by (simp add: fixed_matcher_def)
  from not_found_reported_and_skipped [where roster = "[(''jane doe'', ''jane@x.edu'')]"
      and q = "''Nonexistent Person''" and gcm = "fixed_matcher []"
      and assignments = "[''hw1'']" and days = 5 and ambig_names = "[]"
      and names = "[''jane doe'']" and w = "\<lparr>stdin = [], stdout = [], extensions = []\<rparr>", OF h1 h2]
  show ?thesis by (simp add: l print_def)
qed

section \<open>Properties of the extension calls\<close>

text \<open>
  Runs that return: the first loop when no name has exactly one close match, the second
  when a candidate is selected for each pending name at its first line.
\<close>

lemma match_all_names:
  "\<forall>q \<in> set names. dict_contains roster (str_lower q)
                    \<or> length (gcm (str_lower q) (map fst roster) 5) \<noteq> 1 \<Longrightarrow>
   \<exists>ambig' w'. main_extend_match gcm roster assignments days names ambig_names w = (Inr ambig', w')
      \<and> stdin w' = stdin w
      \<and> extensions w' = extensions w
           @ concat (map (\<lambda>q. extensions_for assignments days (the (map_of roster (str_lower q))))
                       (filter (\<lambda>q. dict_contains roster (str_lower q)) names))"
proof (induction names arbitrary: ambig_names w)
  case Nil
  then show ?case by simp
next
  case (Cons q names)
  from Cons.prems have rest: "\<forall>q \<in> set names. dict_contains roster (str_lower q)
                    \<or> length (gcm (str_lower q) (map fst roster) 5) \<noteq> 1" by simp
  show ?case
  proof (cases "dict_contains roster (str_lower q)")
    case True
    let ?w1 = "(print (''  '' @ str_lower q @ '' ('' @ the (map_of roster (str_lower q)) @ '')'') w)
          \<lparr>extensions := extensions w
             @ extensions_for assignments days (the (map_of roster (str_lower q)))\<rparr>"
    from Cons.IH [OF rest, of ambig_names ?w1]
    obtain ambig' w' where r:
      "main_extend_match gcm roster assignments days names ambig_names ?w1 = (Inr ambig', w')"
      "stdin w' = stdin ?w1"
      "extensions w' = extensions ?w1
           @ concat (map (\<lambda>q. extensions_for assignments days (the (map_of roster (str_lower q))))
                       (filter (\<lambda>q. dict_contains roster (str_lower q)) names))"
      by blast
    with True show ?thesis
      by (simp add: match_name_in_roster print_def)
  next
    case False
    with Cons.prems have n1: "length (gcm (str_lower q) (map fst roster) 5) \<noteq> 1" by simp
    from match_name_not_in_roster [of roster q gcm assignments days ambig_names w] False n1
    obtain a1 w1 where s:
      "main_extend_match_name gcm roster assignments days q ambig_names w = (Inr a1, w1)"
      "stdin w1 = stdin w" "extensions w1 = extensions w" by blast
    from Cons.IH [OF rest, of a1 w1]
    obtain ambig' w' where r:
      "main_extend_match gcm roster assignments days names a1 w1 = (Inr ambig', w')"
      "stdin w' = stdin w1"
      "extensions w' = extensions w1
           @ concat (map (\<lambda>q. extensions_for assignments days (the (map_of roster (str_lower q))))
                       (filter (\<lambda>q. dict_contains roster (str_lower q)) names))"
      by blast
    with False s show ?thesis by simp
  qed
qed

lemma resolve_name_selected:
  assumes "selects_candidate roster pending line" "stdin w = line # rest"
  shows "\<exists>w'. main_extend_resolve_name roster assignments days pending w = (Inr (), w')
            \<and> stdin w' = rest
            \<and> extensions w' = extensions w
                 @ extensions_for assignments days (selected_email roster pending line)"
proof -
  obtain ambig_name options where p: "pending = (ambig_name, options)" by (cases pending)
  let ?n = "int_of_digits line"
  from assms(1) p have v: "str_isdigit line" "length line \<le> 4300" "1 \<le> ?n" "?n \<le> length options"
    and c: "dict_contains roster (options ! (?n - 1))"
    by (simp_all add: selects_candidate_def)
  let ?w0 = "print (ambig_name @ '': Found the following close matches:'') w"
  have s0: "stdin ?w0 = line # rest" using assms(2) by (simp add: print_def)
  from v have v': "?n \<le> length (options @ [''(None)''])" by simp
  from selection_helper_valid [OF s0 v(1,2,3) v', of select_msg]
  obtain w1 where w1:
    "selection_helper (options @ [''(None)'']) select_msg ?w0 = (Inr (?n - 1), w1)"
    "stdin w1 = rest" "extensions w1 = extensions ?w0" by blast
  from v have lt: "?n - 1 < length options" by simp
  let ?s = "options ! (?n - 1)"
  let ?e = "the (map_of roster ?s)"
  have g: "dict_getitem roster ?s = Inr ?e" using c by (rule dict_getitem_the)
  let ?w2 = "print (''  '' @ ?s @ '' ('' @ ?e @ '')'') w1"
  have "main_extend_resolve_name roster assignments days pending w
        = apply_extensions roster ?s days assignments ?w2"
    using w1(1) lt g by (simp add: main_extend_resolve_name_def p list_getitem_def)
  also have "\<dots> = (Inr (), ?w2\<lparr>extensions := extensions ?w2 @ extensions_for assignments days ?e\<rparr>)"
    using g by (rule apply_extensions_ok)
  finally show ?thesis
    using w1(2,3) by (simp add: print_def selected_email_def p)
qed

lemma resolve_all_selected:
  "list_all2 (selects_candidate roster) pending lines \<Longrightarrow> stdin w = lines @ rest \<Longrightarrow>
   \<exists>w'. main_extend_resolve roster assignments days pending w = (Inr (), w')
      \<and> stdin w' = rest
      \<and> extensions w' = extensions w
           @ concat (map2 (\<lambda>p l. extensions_for assignments days (selected_email roster p l))
                       pending lines)"
proof (induction pending lines arbitrary: w rule: list_all2_induct)
  case Nil
  then show ?case by simp
next
  case (Cons p ps l ls)
  from Cons.prems have s: "stdin w = l # (ls @ rest)" by simp
  from resolve_name_selected [OF Cons.hyps(1) s, of assignments days]
  obtain w1 where w1: "main_extend_resolve_name roster assignments days p w = (Inr (), w1)"
    "stdin w1 = ls @ rest"
    "extensions w1 = extensions w @ extensions_for assignments days (selected_email roster p l)"
    by blast
  from Cons.IH [OF w1(2)]
  obtain w2 where w2: "main_extend_resolve roster assignments days ps w1 = (Inr (), w2)"
    "stdin w2 = rest"
    "extensions w2 = extensions w1
           @ concat (map2 (\<lambda>p l. extensions_for assignments days (selected_email roster p l)) ps ls)"
    by blast
  from w1 w2 show ?case by simp
qed

lemma length_extensions_names:
  "length (concat (map (\<lambda>x. extensions_for assignments days (f x)) xs))
     = length xs * length assignments"
  by (induction xs) (simp_all add: extensions_for_def)

lemma length_extensions_selected:
  "length xs = length ys \<Longrightarrow>
   length (concat (map2 (\<lambda>x y. extensions_for assignments days (f x y)) xs ys))
     = length xs * length assignments"
  by (induction xs ys rule: list_induct2) (simp_all add: extensions_for_def)

text \<open>
  Every run, whatever it meets: the extension calls of each loop are the resolved emails
  crossed with the assignments.
\<close>


lemma match_name_by_result:
  "main_extend_match_name gcm roster assignments days q ambig_names w =
     (case match_result_of gcm roster q of
        Exact email \<Rightarrow>
          (Inr ambig_names,
           (print (''  '' @ str_lower q @ '' ('' @ email @ '')'') w)
             \<lparr>extensions := extensions w @ extensions_for assignments days email\<rparr>)
      | UniqueFuzzy c \<Rightarrow> (Inl IndexError, w)
      | Ambiguous cs \<Rightarrow>
          (Inr (ambig_names @ [(str_lower q, cs)]),
           print (str_lower q @ '': At least '' @ str_nat (length cs) @ '' found'') w)
      | NotFound \<Rightarrow>
          (Inr ambig_names, print (str_lower q @ '': could not find in the roster'') w))"
proof (cases "map_of roster (str_lower q)")
  case (Some e)
  then have "dict_contains roster (str_lower q)" by (simp add: dict_contains_def)
  from match_name_in_roster [OF this, of gcm assignments days ambig_names w] Some
  show ?thesis by (simp add: match_result_of_def)
next
  case None
  then have n: "\<not> dict_contains roster (str_lower q)" by (simp add: dict_contains_def)
  show ?thesis
  proof (cases "gcm (str_lower q) (map fst roster) 5")
    case Nil
    with None n show ?thesis
      by (simp add: match_result_of_def main_extend_match_name_def Let_def)
  next
    case (Cons c cs)
    note outer = Cons
    show ?thesis
    proof (cases cs)
      case Nil
      with outer None n show ?thesis
        by (simp add: match_result_of_def main_extend_match_name_def list_getitem_def Let_def)
    next
      case (Cons d ds)
      with outer None n show ?thesis
        by (simp add: match_result_of_def main_extend_match_name_def Let_def)
    qed
  qed
qed

lemma match_loop_by_result:
  "\<exists>w'. main_extend_match gcm roster assignments days names ambig_names w
          = (case queued_ambiguous gcm roster names of
               None \<Rightarrow> Inl IndexError
             | Some pending \<Rightarrow> Inr (ambig_names @ pending), w')
      \<and> stdin w' = stdin w
      \<and> extensions w' = extensions w
           @ concat (map (extensions_for assignments days) (resolved_exact gcm roster names))"
proof (induction names arbitrary: ambig_names w)
  case Nil
  then show ?case by simp
next
  case (Cons q names)
  show ?case
  proof (cases "match_result_of gcm roster q")
    case (Exact email)
    let ?w1 = "(print (''  '' @ str_lower q @ '' ('' @ email @ '')'') w)
             \<lparr>extensions := extensions w @ extensions_for assignments days email\<rparr>"
    from Cons.IH [of ambig_names ?w1] Exact show ?thesis
      by (auto simp: match_name_by_result print_def)
  next
    case (UniqueFuzzy c)
    then show ?thesis by (simp add: match_name_by_result)
  next
    case (Ambiguous cs)
    let ?w1 = "print (str_lower q @ '': At least '' @ str_nat (length cs) @ '' found'') w"
    from Cons.IH [of "ambig_names @ [(str_lower q, cs)]" ?w1] Ambiguous show ?thesis
      by (auto simp: match_name_by_result print_def split: option.splits)
  next
    case NotFound
    let ?w1 = "print (str_lower q @ '': could not find in the roster'') w"
    from Cons.IH [of ambig_names ?w1] NotFound show ?thesis
      by (auto simp: match_name_by_result print_def)
  qed
qed



lemma selection_loop_eof:
  "stdin w = [] \<Longrightarrow>
   selection_loop options msg w = (Inl EOFError, w\<lparr>stdout := stdout w @ [''Selection: '']\<rparr>)"
  by (subst selection_loop.simps) (simp add: input_def)

lemma selection_loop_long:
  "stdin w = line # rest \<Longrightarrow> str_isdigit line \<Longrightarrow> 4300 < length line \<Longrightarrow>
   selection_loop options msg w
     = (Inl ValueError, w\<lparr>stdin := rest, stdout := stdout w @ [''Selection: '']\<rparr>)"
  by (subst selection_loop.simps) (simp add: input_def)

lemma selection_loop_range:
  "stdin w = line # rest \<Longrightarrow> str_isdigit line \<Longrightarrow> \<not> 4300 < length line \<Longrightarrow>
   \<not> (1 \<le> int_of_digits line \<and> int_of_digits line \<le> length options) \<Longrightarrow>
   selection_loop options msg w
     = selection_loop options msg
         (print (str_int (int (int_of_digits line) - 1 + 1) @ '' not within range. '' @ msg)
            (w\<lparr>stdin := rest, stdout := stdout w @ [''Selection: '']\<rparr>))"
  by (subst selection_loop.simps) (auto simp: input_def Let_def)

lemma selection_loop_nodigit:
  "stdin w = line # rest \<Longrightarrow> \<not> str_isdigit line \<Longrightarrow>
   selection_loop options msg w
     = selection_loop options msg (w\<lparr>stdin := rest, stdout := stdout w @ [''Selection: '']\<rparr>)"
  by (subst selection_loop.simps) (simp add: input_def)

lemma selection_of_less:
  "selection_of n lines = (Some ix, rest) \<Longrightarrow> ix < n"
  by (induction lines) (auto split: if_splits)

lemma selection_loop_by_lines:
  "stdin w = lines \<Longrightarrow>
   \<exists>r w'. selection_loop options msg w = (r, w') \<and> extensions w' = extensions w
        \<and> (case selection_of (length options) lines of
              (None, rest) \<Rightarrow> (\<exists>e. r = Inl e)
            | (Some ix, rest) \<Rightarrow> r = Inr ix \<and> stdin w' = rest)"
proof (induction lines arbitrary: w)
  case Nil
  then show ?case by (simp add: selection_loop_eof)
next
  case (Cons line rest)
  let ?w1 = "w\<lparr>stdin := rest, stdout := stdout w @ [''Selection: '']\<rparr>"
  show ?case
  proof (cases "str_isdigit line")
    case False
    from Cons.IH [of ?w1] False Cons.prems show ?thesis
      by (simp add: selection_loop_nodigit)
  next
    case True
    show ?thesis
    proof (cases "4300 < length line")
      case long: True
      with True Cons.prems show ?thesis by (simp add: selection_loop_long)
    next
      case short: False
      show ?thesis
      proof (cases "1 \<le> int_of_digits line \<and> int_of_digits line \<le> length options")
        case valid: True
        with True short Cons.prems selection_loop_valid [of w line rest options msg]
        show ?thesis by simp
      next
        case range: False
        let ?w2 = "print (str_int (int (int_of_digits line) - 1 + 1) @ '' not within range. '' @ msg) ?w1"
        have s: "stdin ?w2 = rest" by (simp add: print_def)
        have e: "extensions ?w2 = extensions w" by (simp add: print_def)
        from selection_loop_range [OF Cons.prems True short range, of msg]
        have sl: "selection_loop options msg w = selection_loop options msg ?w2" .
        have so: "selection_of (length options) (line # rest)
                    = selection_of (length options) rest"
          using True short range by auto
        have "\<exists>r w'. selection_loop options msg ?w2 = (r, w') \<and> extensions w' = extensions w
                \<and> (case selection_of (length options) rest of
                      (None, rest) \<Rightarrow> (\<exists>e. r = Inl e)
                    | (Some ix, rest) \<Rightarrow> r = Inr ix \<and> stdin w' = rest)"
          using Cons.IH [OF s] e by simp
        then show ?thesis by (simp only: so sl)
      qed
    qed
  qed
qed

lemma selection_helper_by_lines:
  assumes "options \<noteq> []"
  shows "\<exists>r w'. selection_helper options msg w = (r, w') \<and> extensions w' = extensions w
        \<and> (case selection_of (length options) (stdin w) of
              (None, rest) \<Rightarrow> (\<exists>e. r = Inl e)
            | (Some ix, rest) \<Rightarrow> r = Inr ix \<and> stdin w' = rest)"
proof -
  from assms obtain x ys where o: "options = x # ys" by (cases options) auto
  let ?w2 = "fold (\<lambda>(ix, opt). print (''  ('' @ str_nat (ix + 1) @ '') '' @ opt))
                     (enumerate 0 options) (print msg w)"
  have s: "stdin ?w2 = stdin w"
    by (simp add: fold_print_stdin print_def)
  have e: "extensions ?w2 = extensions w"
    by (simp add: fold_print_extensions print_def)
  have h: "selection_helper options msg w = selection_loop options msg ?w2"
    by (simp add: selection_helper_def builtin_max_def o)
  from selection_loop_by_lines [OF s, of options msg] e h show ?thesis by simp
qed

lemma resolve_name_by_lines:
  "\<exists>r w'. main_extend_resolve_name roster assignments days (ambig_name, options) w = (r, w')
     \<and> (case selection_of (length options + 1) (stdin w) of
           (None, rest) \<Rightarrow> (\<exists>e. r = Inl e) \<and> extensions w' = extensions w
         | (Some ix, rest) \<Rightarrow>
             if ix = length options
             then r = Inr () \<and> stdin w' = rest \<and> extensions w' = extensions w
             else (case map_of roster (options ! ix) of
                     None \<Rightarrow> (\<exists>e. r = Inl e) \<and> extensions w' = extensions w
                   | Some email \<Rightarrow>
                       r = Inr () \<and> stdin w' = rest
                       \<and> extensions w' = extensions w @ extensions_for assignments days email))"
proof -
  let ?w0 = "print (ambig_name @ '': Found the following close matches:'') w"
  let ?opts = "options @ [''(None)'']"
  have ne: "?opts \<noteq> []" by simp
  have s0: "stdin ?w0 = stdin w" and e0: "extensions ?w0 = extensions w"
    by (simp_all add: print_def)
  from selection_helper_by_lines [OF ne, of select_msg ?w0]
  obtain r1 w1 where h: "selection_helper ?opts select_msg ?w0 = (r1, w1)"
    "extensions w1 = extensions w"
    "case selection_of (length options + 1) (stdin w) of
              (None, rest) \<Rightarrow> (\<exists>e. r1 = Inl e)
            | (Some ix, rest) \<Rightarrow> r1 = Inr ix \<and> stdin w1 = rest"
    using s0 e0 by auto
  obtain sel rest where so: "selection_of (length options + 1) (stdin w) = (sel, rest)"
    by (cases "selection_of (length options + 1) (stdin w)")
  show ?thesis
  proof (cases sel)
    case None
    with h so obtain e where "r1 = Inl e" by auto
    with h None so show ?thesis
      by (simp add: main_extend_resolve_name_def)
  next
    case (Some ix)
    with h so have r1: "r1 = Inr ix" "stdin w1 = rest" by auto
    from Some so selection_of_less have lt: "ix < length options + 1" by blast
    show ?thesis
    proof (cases "ix = length options")
      case True
      with h r1 Some so show ?thesis
        by (simp add: main_extend_resolve_name_def print_def)
    next
      case False
      with lt have lt': "ix < length options" by simp
      show ?thesis
      proof (cases "map_of roster (options ! ix)")
        case None
        with h r1 Some so False lt' show ?thesis
          by (simp add: main_extend_resolve_name_def list_getitem_def dict_getitem_def)
      next
        case (Some email)
        then have g: "dict_getitem roster (options ! ix) = Inr email"
          by (simp add: dict_getitem_def)
        from h r1 \<open>sel = Some ix\<close> so False lt' Some g show ?thesis
          by (simp add: main_extend_resolve_name_def list_getitem_def apply_extensions_ok
                print_def)
      qed
    qed
  qed
qed

lemma resolve_loop_by_lines:
  "extensions (snd (main_extend_resolve roster assignments days pending w))
     = extensions w
       @ concat (map (extensions_for assignments days) (selected_emails roster pending (stdin w)))"
proof (induction pending arbitrary: w)
  case Nil
  then show ?case by simp
next
  case (Cons p pending)
  obtain ambig_name options where p: "p = (ambig_name, options)" by (cases p)
  obtain r w1 where rw:
    "main_extend_resolve_name roster assignments days (ambig_name, options) w = (r, w1)"
    by (cases "main_extend_resolve_name roster assignments days (ambig_name, options) w")
  from resolve_name_by_lines [of roster assignments days ambig_name options w] rw
  have h:
    "case selection_of (length options + 1) (stdin w) of
           (None, rest) \<Rightarrow> (\<exists>e. r = Inl e) \<and> extensions w1 = extensions w
         | (Some ix, rest) \<Rightarrow>
             if ix = length options
             then r = Inr () \<and> stdin w1 = rest \<and> extensions w1 = extensions w
             else (case map_of roster (options ! ix) of
                     None \<Rightarrow> (\<exists>e. r = Inl e) \<and> extensions w1 = extensions w
                   | Some email \<Rightarrow>
                       r = Inr () \<and> stdin w1 = rest
                       \<and> extensions w1 = extensions w @ extensions_for assignments days email)"
    by simp
  from rw h Cons.IH [of w1] show ?case
    by (auto simp: p split: prod.splits option.splits if_splits)
qed

lemma main_extend_by_lines:
  "extensions (snd (main_extend gcm roster assignments days names w))
     = extensions w
       @ concat (map (extensions_for assignments days)
                   (resolved_emails gcm roster names (stdin w)))"
proof -
  from match_loop_by_result [of gcm roster assignments days names "[]" w]
  obtain w1 where h:
    "main_extend_match gcm roster assignments days names [] w
          = (case queued_ambiguous gcm roster names of
               None \<Rightarrow> Inl IndexError
             | Some pending \<Rightarrow> Inr ([] @ pending), w1)"
    "stdin w1 = stdin w"
    "extensions w1 = extensions w
           @ concat (map (extensions_for assignments days) (resolved_exact gcm roster names))"
    by blast
  show ?thesis
  proof (cases "queued_ambiguous gcm roster names")
    case None
    with h show ?thesis by (simp add: main_extend_def resolved_emails_def)
  next
    case (Some pending)
    with h resolve_loop_by_lines [of roster assignments days pending w1] show ?thesis
      by (simp add: main_extend_def resolved_emails_def)
  qed
qed

lemma length_cross_product:
  "length (concat (map (extensions_for assignments days) es)) = length es * length assignments"
  by (induction es) (simp_all add: extensions_for_def)

text \<open>
  C8: every resolved email is applied to every filtered assignment. The extension calls
  that a run of \<open>main_extend\<close> adds are, in order, its resolved emails crossed with the
  assignments, so \<open>N\<close> resolved students over \<open>M\<close> assignments make exactly \<open>N * M\<close>
  calls; the same holds of each loop alone, for the names resolved in the first loop and
  for the candidates selected from the queue (after any number of lines asked again,
  and with "(None)" resolving nobody). It holds of every run, also of one that stops
  part way, at a name with one close match or when the input ends: the resolved students
  are then those resolved before the stop.
\<close>

theorem extensions_cross_product:
  "extensions (snd (main_extend gcm roster assignments days names w))
     = extensions w
       @ concat (map (extensions_for assignments days)
                   (resolved_emails gcm roster names (stdin w)))
   \<and> length (extensions (snd (main_extend gcm roster assignments days names w)))
     = length (extensions w)
       + length (resolved_emails gcm roster names (stdin w)) * length assignments
   \<and> fst (main_extend_match gcm roster assignments days names ambig_names w)
     = (case queued_ambiguous gcm roster names of
          None \<Rightarrow> Inl IndexError
        | Some queue \<Rightarrow> Inr (ambig_names @ queue))
   \<and> extensions (snd (main_extend_match gcm roster assignments days names ambig_names w))
     = extensions w
       @ concat (map (extensions_for assignments days) (resolved_exact gcm roster names))
   \<and> length (extensions (snd (main_extend_match gcm roster assignments days names
                                 ambig_names w)))
     = length (extensions w) + length (resolved_exact gcm roster names) * length assignments
   \<and> extensions (snd (main_extend_resolve roster assignments days pending w))
     = extensions w
       @ concat (map (extensions_for assignments days)
                   (selected_emails roster pending (stdin w)))
   \<and> length (extensions (snd (main_extend_resolve roster assignments days pending w)))
     = length (extensions w)
       + length (selected_emails roster pending (stdin w)) * length assignments"
proof -
  from match_loop_by_result [of gcm roster assignments days names ambig_names w]
  obtain w1 where m:
    "main_extend_match gcm roster assignments days names ambig_names w
       = (case queued_ambiguous gcm roster names of
            None \<Rightarrow> Inl IndexError
          | Some pending \<Rightarrow> Inr (ambig_names @ pending), w1)"
    "extensions w1 = extensions w
       @ concat (map (extensions_for assignments days) (resolved_exact gcm roster names))"
    by blast
  have a: "extensions (snd (main_extend gcm roster assignments days names w))
     = extensions w
       @ concat (map (extensions_for assignments days)
                   (resolved_emails gcm roster names (stdin w)))"
    by (rule main_extend_by_lines)
  have b: "fst (main_extend_match gcm roster assignments days names ambig_names w)
     = (case queued_ambiguous gcm roster names of
          None \<Rightarrow> Inl IndexError
        | Some queue \<Rightarrow> Inr (ambig_names @ queue))"
    using m(1) by simp
  have c: "extensions (snd (main_extend_match gcm roster assignments days names ambig_names w))
     = extensions w
       @ concat (map (extensions_for assignments days) (resolved_exact gcm roster names))"
    using m by simp
  have d: "extensions (snd (main_extend_resolve roster assignments days pending w))
     = extensions w
       @ concat (map (extensions_for assignments days)
                   (selected_emails roster pending (stdin w)))"
    by (rule resolve_loop_by_lines)
  from a b c d show ?thesis
    by (simp add: length_cross_product)
qed

text \<open>
  Two runs over the assignments "hw1a" and "hw1b". In the first, "Jane Doe" is an exact
  match, "jane" and "jane oe" have two close matches each and "nonexistent person" has
  none; for "jane" the lines "x" and "0" are asked again and "1" selects "jane roe", and
  for "jane oe" the line "3" selects "(None)": two students are resolved, four calls are
  made. In the second, "jane do" has one close match: the run stops there, after the
  two calls for "jane doe" and before "bob roe".
\<close>

theorem extensions_cross_product_witness:
  "extensions (snd (main_extend
       (table_matcher [(''jane'', [''jane roe'', ''jane doe'']),
                       (''jane oe'', [''jane roe'', ''jane doe''])])
       [(''jane doe'', ''jane@x.edu''), (''jane roe'', ''roe@x.edu'')]
       [''hw1a'', ''hw1b''] 5 [''Jane Doe'', ''jane'', ''nonexistent person'', ''jane oe'']
       \<lparr>stdin = [''x'', ''0'', ''1'', ''3''], stdout = [], extensions = []\<rparr>))
     = [(''hw1a'', ''jane@x.edu'', 5), (''hw1b'', ''jane@x.edu'', 5),
        (''hw1a'', ''roe@x.edu'', 5), (''hw1b'', ''roe@x.edu'', 5)]
   \<and> extensions (snd (main_extend
       (table_matcher [(''jane do'', [''jane doe''])])
       [(''jane doe'', ''jane@x.edu''), (''bob roe'', ''bob@x.edu'')]
       [''hw1a'', ''hw1b''] 5 [''jane doe'', ''jane do'', ''bob roe'']
       \<lparr>stdin = [], stdout = [], extensions = []\<rparr>))
     = [(''hw1a'', ''jane@x.edu'', 5), (''hw1b'', ''jane@x.edu'', 5)]
   \<and> fst (main_extend_match
       (table_matcher [(''jane do'', [''jane doe''])])
       [(''jane doe'', ''jane@x.edu''), (''bob roe'', ''bob@x.edu'')]
       [''hw1a'', ''hw1b''] 5 [''jane doe'', ''jane do'', ''bob roe''] []
       \<lparr>stdin = [], stdout = [], extensions = []\<rparr>)
     = Inl IndexError"
proof -
  have l: "str_lower ''Jane Doe'' = ''jane doe''" "str_lower ''jane'' = ''jane''"
    "str_lower ''nonexistent person'' = ''nonexistent person''"
    "str_lower ''jane oe'' = ''jane oe''" "str_lower ''jane doe'' = ''jane doe''"
    "str_lower ''jane do'' = ''jane do''" "str_lower ''bob roe'' = ''bob roe''"
    by (simp_all add: str_lower_def char_lower_def)
  have d: "str_isdigit ''0''" "str_isdigit ''1''" "str_isdigit ''3''" "\<not> str_isdigit ''x''"
    "int_of_digits ''0'' = 0" "int_of_digits ''1'' = 1" "int_of_digits ''3'' = 3"
    by (simp_all add: str_isdigit_def char_isdigit_def int_of_digits_def digit_value_def)
  have r1: "resolved_emails
       (table_matcher [(''jane'', [''jane roe'', ''jane doe'']),
                       (''jane oe'', [''jane roe'', ''jane doe''])])
       [(''jane doe'', ''jane@x.edu''), (''jane roe'', ''roe@x.edu'')]
       [''Jane Doe'', ''jane'', ''nonexistent person'', ''jane oe'']
       [''x'', ''0'', ''1'', ''3'']
     = [''jane@x.edu'', ''roe@x.edu'']"
    by (simp add: resolved_emails_def match_result_of_def table_matcher_def l d)
  have r2: "resolved_emails
       (table_matcher [(''jane do'', [''jane doe''])])
       [(''jane doe'', ''jane@x.edu''), (''bob roe'', ''bob@x.edu'')]
       [''jane doe'', ''jane do'', ''bob roe''] []
     = [''jane@x.edu'']"
    by (simp add: resolved_emails_def match_result_of_def table_matcher_def l)
  have q2: "queued_ambiguous
       (table_matcher [(''jane do'', [''jane doe''])])
       [(''jane doe'', ''jane@x.edu''), (''bob roe'', ''bob@x.edu'')]
       [''jane doe'', ''jane do'', ''bob roe'']
     = None"
    by (simp add: match_result_of_def table_matcher_def l)
  from extensions_cross_product
    [where gcm = "table_matcher [(''jane'', [''jane roe'', ''jane doe'']),
                                 (''jane oe'', [''jane roe'', ''jane doe''])]"
      and roster = "[(''jane doe'', ''jane@x.edu''), (''jane roe'', ''roe@x.edu'')]"
      and assignments = "[''hw1a'', ''hw1b'']" and days = 5
      and names = "[''Jane Doe'', ''jane'', ''nonexistent person'', ''jane oe'']"
      and w = "\<lparr>stdin = [''x'', ''0'', ''1'', ''3''], stdout = [], extensions = []\<rparr>",
      THEN conjunct1]
  have a: "extensions (snd (main_extend
       (table_matcher [(''jane'', [''jane roe'', ''jane doe'']),
                       (''jane oe'', [''jane roe'', ''jane doe''])])
       [(''jane doe'', ''jane@x.edu''), (''jane roe'', ''roe@x.edu'')]
       [''hw1a'', ''hw1b''] 5 [''Jane Doe'', ''jane'', ''nonexistent person'', ''jane oe'']
       \<lparr>stdin = [''x'', ''0'', ''1'', ''3''], stdout = [], extensions = []\<rparr>))
     = [(''hw1a'', ''jane@x.edu'', 5), (''hw1b'', ''jane@x.edu'', 5),
        (''hw1a'', ''roe@x.edu'', 5), (''hw1b'', ''roe@x.edu'', 5)]"
    by (simp add: r1 extensions_for_def)
  note run2 = extensions_cross_product
    [where gcm = "table_matcher [(''jane do'', [''jane doe''])]"
      and roster = "[(''jane doe'', ''jane@x.edu''), (''bob roe'', ''bob@x.edu'')]"
      and assignments = "[''hw1a'', ''hw1b'']" and days = 5
      and names = "[''jane doe'', ''jane do'', ''bob roe'']" and ambig_names = "[]"
      and w = "\<lparr>stdin = [], stdout = [], extensions = []\<rparr>"]
  from run2 [THEN conjunct1]
  have b: "extensions (snd (main_extend
       (table_matcher [(''jane do'', [''jane doe''])])
       [(''jane doe'', ''jane@x.edu''), (''bob roe'', ''bob@x.edu'')]
       [''hw1a'', ''hw1b''] 5 [''jane doe'', ''jane do'', ''bob roe'']
       \<lparr>stdin = [], stdout = [], extensions = []\<rparr>))
     = [(''hw1a'', ''jane@x.edu'', 5), (''hw1b'', ''jane@x.edu'', 5)]"
    by (simp add: r2 extensions_for_def)
  from run2 [THEN conjunct2, THEN conjunct2, THEN conjunct1]
  have c: "fst (main_extend_match
       (table_matcher [(''jane do'', [''jane doe''])])
       [(''jane doe'', ''jane@x.edu''), (''bob roe'', ''bob@x.edu'')]
       [''hw1a'', ''hw1b''] 5 [''jane doe'', ''jane do'', ''bob roe''] []
       \<lparr>stdin = [], stdout = [], extensions = []\<rparr>)
     = Inl IndexError"
    by (simp only: q2 option.case)
  from a b c show ?thesis by blast
qed

section \<open>Properties of the roster built from the forum's members\<close>

lemma find_valid_email_fst:
  "fst (find_valid_email es V (ve, em))
     = (case List.find (\<lambda>e. e \<in> V) es of None \<Rightarrow> ve | Some e \<Rightarrow> Some e)"
  by (induction es arbitrary: em) auto

lemma find_valid_email_snd:
  "List.find (\<lambda>e. e \<in> V) es = Some e \<Longrightarrow> snd (find_valid_email es V (ve, em)) = Some e"
  by (induction es arbitrary: em) (auto split: if_splits)

lemma find_valid_email_found:
  "List.find (\<lambda>e. e \<in> V) es = Some e \<Longrightarrow> find_valid_email es V (None, em) = (Some e, Some e)"
  using find_valid_email_fst [of es V None em] find_valid_email_snd [of V es e None em]
  by (cases "find_valid_email es V (None, em)") simp

lemma find_valid_email_none:
  "List.find (\<lambda>e. e \<in> V) es = None \<Longrightarrow> fst (find_valid_email es V (None, em)) = None"
  by (simp add: find_valid_email_fst)

lemma membership_loop_refines:
  "\<exists>em'. membership_loop students V (roster, sans, em)
     = Inr (fst (buildFromForumMembership
                   (map (\<lambda>x. (user_name x, str_split (user_email x) '', '')) students)
                   V (roster, sans)),
            snd (buildFromForumMembership
                   (map (\<lambda>x. (user_name x, str_split (user_email x) '', '')) students)
                   V (roster, sans)),
            em')"
proof (induction students arbitrary: roster sans em)
  case Nil
  then show ?case by simp
next
  case (Cons s students)
  let ?es = "str_split (user_email s) '', ''"
  show ?case
  proof (cases "List.find (\<lambda>e. e \<in> V) ?es")
    case None
    obtain ve em1 where r: "find_valid_email ?es V (None, em) = (ve, em1)"
      by (cases "find_valid_email ?es V (None, em)") auto
    with find_valid_email_none [OF None, of em] have "ve = None" by simp
    with None r Cons.IH [of roster "sans @ [str_lower (user_name s)]" em1]
    show ?thesis by simp
  next
    case (Some e)
    from find_valid_email_found [OF Some, of em]
    have r: "find_valid_email ?es V (None, em) = (Some e, Some e)" .
    with Some Cons.IH [of "AList.update (str_lower (user_name s)) e roster" sans "Some e"]
    show ?thesis by (simp add: read_local_def)
  qed
qed

lemma membership_loop_students:
  "\<exists>em'. membership_loop (filter (\<lambda>x. user_role x = ''student'') all_users) V ([], [], None)
     = Inr (fst (buildFromForumMembership (forum_students all_users) V ([], [])),
            snd (buildFromForumMembership (forum_students all_users) V ([], [])),
            em')"
  using membership_loop_refines
          [of "filter (\<lambda>x. user_role x = ''student'') all_users" V "[]" "[]" None]
  unfolding forum_students_def by blast

lemma update_values:
  "snd ` set (AList.update k v al) \<subseteq> insert v (snd ` set al)"
  by (induction al) auto

lemma build_values:
  "snd ` set roster \<subseteq> V \<Longrightarrow>
   snd ` set (fst (buildFromForumMembership sts V (roster, un))) \<subseteq> V"
proof (induction sts arbitrary: roster un)
  case Nil
  then show ?case by simp
next
  case (Cons p sts)
  obtain name cands where p: "p = (name, cands)" by (cases p)
  show ?case
  proof (cases "List.find (\<lambda>e. e \<in> V) cands")
    case None
    with p Cons show ?thesis by simp
  next
    case (Some e)
    then have "e \<in> V" by (auto simp: find_Some_iff)
    with Cons.prems update_values [of "str_lower name" e roster]
    have "snd ` set (AList.update (str_lower name) e roster) \<subseteq> V" by blast
    from Cons.IH [OF this] p Some show ?thesis by simp
  qed
qed

text \<open>
  C6: the roster that \<open>interactive_setup\<close> builds from the forum's members is the one
  the specification describes: each student's first candidate email that is in the set
  of valid emails is bound under the lowercased name, a student with no such candidate
  goes to the list of unmatched names, which is printed as a warning when it is not
  empty, and the construction goes on and returns the roster. The student "jane doe"
  with the candidates "jane@y.edu" and "jane@x.edu", of which the second only is valid,
  is bound to "jane@x.edu".
\<close>

theorem membership_roster_first_valid:
  "interactive_setup_membership all_users valid_emails w
     = (case buildFromForumMembership (forum_students all_users) valid_emails ([], []) of
          (roster, unmatched) \<Rightarrow>
            (Inr roster,
             if unmatched \<noteq> [] then print (sans_emails_warning unmatched) w else w))
   \<and> interactive_setup_membership
       [\<lparr>user_role = ''student'', user_name = ''jane doe'',
         user_email = ''jane@y.edu, jane@x.edu''\<rparr>]
       {''jane@x.edu''} w
     = (Inr [(''jane doe'', ''jane@x.edu'')], w)"
proof
  obtain em' where
    "membership_loop (filter (\<lambda>x. user_role x = ''student'') all_users) valid_emails
       ([], [], None)
     = Inr (fst (buildFromForumMembership (forum_students all_users) valid_emails ([], [])),
            snd (buildFromForumMembership (forum_students all_users) valid_emails ([], [])),
            em')"
    using membership_loop_students by blast
  then show "interactive_setup_membership all_users valid_emails w
     = (case buildFromForumMembership (forum_students all_users) valid_emails ([], []) of
          (roster, unmatched) \<Rightarrow>
            (Inr roster,
             if unmatched \<noteq> [] then print (sans_emails_warning unmatched) w else w))"
    by (simp add: interactive_setup_membership_def split: prod.splits)
next
  show "interactive_setup_membership
       [\<lparr>user_role = ''student'', user_name = ''jane doe'',
         user_email = ''jane@y.edu, jane@x.edu''\<rparr>]
       {''jane@x.edu''} w
     = (Inr [(''jane doe'', ''jane@x.edu'')], w)"
    by (simp add: interactive_setup_membership_def str_split_def str_lower_def char_lower_def
          read_local_def)
qed

text \<open>
  A run with a matched and an unmatched student, and a user who is not a student.
\<close>

lemma interactive_setup_membership_example:
  "interactive_setup_membership
     [\<lparr>user_role = ''student'', user_name = ''Jane Doe'',
       user_email = ''jane@y.edu, jane@x.edu''\<rparr>,
      \<lparr>user_role = ''ta'', user_name = ''Ann Lee'', user_email = ''ann@x.edu''\<rparr>,
      \<lparr>user_role = ''student'', user_name = ''Bob Roe'', user_email = ''bob@z.edu''\<rparr>]
     {''jane@x.edu'', ''ann@x.edu''}
     \<lparr>stdin = [], stdout = [], extensions = ([] :: (string \<times> string \<times> int) list)\<rparr>
   = (Inr [(''jane doe'', ''jane@x.edu'')],
      \<lparr>stdin = [], stdout = [sans_emails_warning [''bob roe'']], extensions = []\<rparr>)"
  by (simp add: interactive_setup_membership_def str_split_def str_lower_def char_lower_def
        read_local_def print_def)

text \<open>
  C10: every email stored in the roster built from the forum's members is in the set of
  valid emails. The code stores \<open>email\<close>, the variable of the inner loop, and not
  \<open>valid_email\<close>: the inner loop leaves in \<open>valid_email\<close> the first candidate that is
  in the set, and whenever it leaves \<open>valid_email\<close> assigned, \<open>email\<close> holds the same
  value.
\<close>

theorem membership_roster_emails_valid:
  "(\<exists>roster w'. interactive_setup_membership all_users valid_emails w = (Inr roster, w')
      \<and> (\<forall>(k, v) \<in> set roster. v \<in> valid_emails))
   \<and> fst (find_valid_email es valid_emails (None, em))
       = List.find (\<lambda>e. e \<in> valid_emails) es
   \<and> (fst (find_valid_email es valid_emails (None, em)) \<noteq> None \<longrightarrow>
        snd (find_valid_email es valid_emails (None, em))
          = fst (find_valid_email es valid_emails (None, em)))"
proof (intro conjI)
  obtain em' where m:
    "membership_loop (filter (\<lambda>x. user_role x = ''student'') all_users) valid_emails
       ([], [], None)
     = Inr (fst (buildFromForumMembership (forum_students all_users) valid_emails ([], [])),
            snd (buildFromForumMembership (forum_students all_users) valid_emails ([], [])),
            em')"
    using membership_loop_students by blast
  have "snd ` set (fst (buildFromForumMembership (forum_students all_users) valid_emails
                          ([], []))) \<subseteq> valid_emails"
    by (rule build_values) simp
  then have "\<forall>(k, v) \<in> set (fst (buildFromForumMembership (forum_students all_users)
                                     valid_emails ([], []))). v \<in> valid_emails"
    by auto
  with m show "\<exists>roster w'.
      interactive_setup_membership all_users valid_emails w = (Inr roster, w')
      \<and> (\<forall>(k, v) \<in> set roster. v \<in> valid_emails)"
    by (simp add: interactive_setup_membership_def)
next
  show "fst (find_valid_email es valid_emails (None, em))
          = List.find (\<lambda>e. e \<in> valid_emails) es"
    by (simp add: find_valid_email_fst split: option.splits)
next
  show "fst (find_valid_email es valid_emails (None, em)) \<noteq> None \<longrightarrow>
        snd (find_valid_email es valid_emails (None, em))
          = fst (find_valid_email es valid_emails (None, em))"
  proof (cases "List.find (\<lambda>e. e \<in> valid_emails) es")
    case None
    then show ?thesis by (simp add: find_valid_email_fst)
  next
    case (Some e)
    from find_valid_email_found [OF Some, of em] show ?thesis by simp
  qed
qed

theorem membership_roster_emails_valid_witness:
  "(\<exists>roster w'.
      interactive_setup_membership
        [\<lparr>user_role = ''student'', user_name = ''Jane Doe'',
          user_email = ''jane@y.edu, jane@x.edu, jane@w.edu''\<rparr>]
        {''jane@x.edu''}
        \<lparr>stdin = [], stdout = [], extensions = ([] :: (string \<times> string \<times> int) list)\<rparr>
        = (Inr roster, w')
      \<and> roster = [(''jane doe'', ''jane@x.edu'')]
      \<and> (\<forall>(k, v) \<in> set roster. v \<in> {''jane@x.edu''}))
   \<and> fst (find_valid_email [''jane@y.edu'', ''jane@x.edu'', ''jane@w.edu'']
            {''jane@x.edu''} (None, Some ''bob@z.edu'')) \<noteq> None
   \<and> snd (find_valid_email [''jane@y.edu'', ''jane@x.edu'', ''jane@w.edu'']
            {''jane@x.edu''} (None, Some ''bob@z.edu'')) = Some ''jane@x.edu''"
  using membership_roster_emails_valid
    [where all_users = "[\<lparr>user_role = ''student'', user_name = ''Jane Doe'',
          user_email = ''jane@y.edu, jane@x.edu, jane@w.edu''\<rparr>]"
      and valid_emails = "{''jane@x.edu''}"
      and w = "\<lparr>stdin = [], stdout = [], extensions = ([] :: (string \<times> string \<times> int) list)\<rparr>"
      and es = "[''jane@y.edu'', ''jane@x.edu'', ''jane@w.edu'']"
      and em = "Some ''bob@z.edu''"]
  by (simp add: interactive_setup_membership_def str_split_def str_lower_def char_lower_def
        read_local_def)

end
